theory Spec2Isabelle
  imports Complex_Main "HOL-Library.AList"
begin

section \<open>Python arithmetic\<close>

text \<open>
  Python's \<open>int\<close> is unbounded and is modelled by \<open>int\<close>; \<open>//\<close> and \<open>%\<close> with a
  positive divisor are floor division and its non-negative remainder, which is what
  \<open>div\<close> and \<open>mod\<close> on \<open>int\<close> compute.

  The odd-column branch of \<open>create_tonnetz_grid\<close> goes through Python floats. Every
  float that occurs there is a half-integer built from the grid offsets, and IEEE doubles
  add, subtract and multiply such values exactly while their magnitude stays below
  \<open>2^52\<close>; they are modelled by exact rationals. On floats \<open>x % m\<close> with \<open>m > 0\<close> is
  \<open>x - m * floor (x / m)\<close>, and \<open>int(x)\<close> truncates towards zero.
\<close>

definition py_float_mod :: "rat \<Rightarrow> rat \<Rightarrow> rat" where
  "py_float_mod x m = x - m * of_int \<lfloor>x / m\<rfloor>"

definition py_int :: "'a::floor_ceiling \<Rightarrow> int" where
  "py_int x = (if 0 \<le> x then \<lfloor>x\<rfloor> else \<lceil>x\<rceil>)"

section \<open>The pitch lattice: \<open>create_tonnetz_grid\<close>\<close>

text \<open>
  \<open>self.grid\<close> is a dict from \<open>(row, col)\<close> to a pitch-class index. A Python dict keeps
  its keys in insertion order and \<open>create_hexagons\<close> iterates over it, so the dict is an
  association list; \<open>d[k] = v\<close> is \<open>AList.update k v d\<close> (overwrite in place, or append).
\<close>

type_synonym cell = "int \<times> int"
type_synonym grid = "(cell \<times> int) list"

text \<open>Lines 229 and 231-232: the two branches that compute \<open>pitch_index\<close>.\<close>

definition even_column_pitch :: "int \<Rightarrow> int \<Rightarrow> int" where
  "even_column_pitch row_offset col_offset = (7 * col_offset + 4 * row_offset) mod 12"

definition odd_column_float :: "int \<Rightarrow> int \<Rightarrow> rat" where
  "odd_column_float row_offset col_offset =
     of_int (7 * col_offset) + 4 * (of_int row_offset - 1 / 2)"

definition odd_column_pitch :: "int \<Rightarrow> int \<Rightarrow> int" where
  "odd_column_pitch row_offset col_offset =
     (let pitch_index = py_float_mod (odd_column_float row_offset col_offset) 12
      in py_int pitch_index mod 12)"

text \<open>Lines 221-234: the body of the inner loop.\<close>

definition grid_cell :: "int \<Rightarrow> int \<Rightarrow> int \<Rightarrow> int \<Rightarrow> grid \<Rightarrow> grid" where
  "grid_cell start_row start_col row col g =
     (if row = start_row \<and> col = start_col then g
      else
        let row_offset = row - start_row;
            col_offset = col - start_col;
            pitch_index =
              (if col mod 2 = 0 then even_column_pitch row_offset col_offset
               else odd_column_pitch row_offset col_offset)
        in AList.update (row, col) pitch_index g)"

text \<open>
  Lines 211-234. \<open>range(n)\<close> is \<open>[0..n - 1]\<close>, empty when \<open>n \<le> 0\<close>. The function takes
  the dict as it is before the call (\<open>{}\<close> after \<open>__init__\<close>) and returns it updated.
  Neither \<open>__init__\<close> nor this function checks \<open>rows\<close> or \<open>cols\<close>, and nothing here
  can raise.
\<close>

definition create_tonnetz_grid :: "int \<Rightarrow> int \<Rightarrow> grid \<Rightarrow> grid" where
  "create_tonnetz_grid rows cols g =
     (let start_row = rows div 2;
          start_col = cols div 2;
          g1 = AList.update (start_row, start_col) 0 g
      in fold (\<lambda>row. fold (\<lambda>col. grid_cell start_row start_col row col) [0..cols - 1])
           [0..rows - 1] g1)"



section \<open>Hexagon geometry: \<open>point_in_hex\<close>\<close>

text \<open>
  Screen coordinates, the square root and the sine are Python and numpy floats in the
  source. Outside the lattice builder they are idealised as real numbers: the functions
  below compute on \<open>real\<close> what the source computes on doubles, rounding left out.
\<close>

type_synonym point = "real \<times> real"

text \<open>Lines 532-544. The parameter \<open>size\<close> of the source is \<open>sz\<close> here and \<open>point\<close> is \<open>pnt\<close>.\<close>

definition point_in_hex :: "point \<Rightarrow> point \<Rightarrow> real \<Rightarrow> bool" where
  "point_in_hex pnt hex_center sz =
     (case pnt of (px, py) \<Rightarrow>
      case hex_center of (hx, hy) \<Rightarrow>
        let dx = \<bar>px - hx\<bar>;
            dy = \<bar>py - hy\<bar>
        in if dy > sz then False
           else let max_x = sz * sqrt 3 * (1 - dy / (2 * sz)) in dx \<le> max_x)"

section \<open>Tone synthesis: \<open>generate_long_tone\<close>\<close>

datatype error = KeyError | ValueError






section \<open>The state of a \<open>TonnetzGrid\<close>\<close>

text \<open>
  One entry of \<open>self.hexagons\<close>. The matplotlib patch and the base colour are drawing
  state: no decision of the code reads them, and they are left out. The key \<open>'note'\<close>
  is the field \<open>note_name\<close>.
\<close>

record hex_data =
  note_name :: string
  pitch_index :: int
  position :: point
  active :: bool

text \<open>
  A mixer channel is a handle. \<open>self.note_sounds\<close> maps a note name to an opaque sound:
  only its keys are kept.

  The fields the handlers read and write, with the module global \<open>AUDIO_AVAILABLE\<close>.
  \<open>hexagons\<close> and \<open>playing_notes\<close> are dicts that the code iterates over, hence
  association lists in insertion order. \<open>toggle_calls\<close> is not a field of the source:
  it records, oldest first, the cell of every call of \<open>toggle_note\<close>, so that one can
  state how often a cell was toggled.
\<close>

type_synonym channel = nat

record tonnetz =
  audio_available :: bool
  hexagons :: "(cell \<times> hex_data) list"
  active_notes :: "cell set"
  chord_highlights :: "cell set"
  playing_notes :: "(string \<times> channel) list"
  note_sounds :: "string list"
  is_dragging :: bool
  drag_toggle_state :: "bool option"
  already_toggled :: "cell set"
  toggle_calls :: "cell list"

text \<open>
  The pygame mixer is outside the program. What it answers during one handler call is
  an argument of the handler: what \<open>find_channel()\<close> returns, whether \<open>channel.play\<close>
  raises, and on which channels \<open>channel.stop\<close> raises. Every such exception is caught
  by the \<open>except Exception\<close> around the call, which only prints.
\<close>

datatype find_result = FindRaises | NoChannel | Free channel

record mixer =
  find_channel :: find_result
  play_raises :: bool
  stop_raises :: "channel \<Rightarrow> bool"

section \<open>Pitch names\<close>

definition pitch_classes :: "string list" where
  "pitch_classes = [''C'', ''C#'', ''D'', ''D#'', ''E'', ''F'', ''F#'', ''G'', ''G#'', ''A'',
     ''A#'', ''B'']"

definition enharmonics :: "(string \<times> string) list" where
  "enharmonics = [(''C#'', ''Db''), (''D#'', ''Eb''), (''F#'', ''Gb''), (''G#'', ''Ab''),
     (''A#'', ''Bb''), (''Db'', ''C#''), (''Eb'', ''D#''), (''Gb'', ''F#''), (''Ab'', ''G#''),
     (''Bb'', ''A#'')]"

text \<open>\<open>list.index(x)\<close> for an \<open>x\<close> that is in the list.\<close>

fun list_index :: "'a list \<Rightarrow> 'a \<Rightarrow> int" where
  "list_index [] x = 0"
| "list_index (y # ys) x = (if x = y then 0 else 1 + list_index ys x)"

text \<open>Lines 195-205: the first alternative that is a pitch class, else 0.\<close>

definition pitch_class_to_index :: "string \<Rightarrow> int" where
  "pitch_class_to_index nt =
     (let alternatives =
            (case map_of enharmonics nt of Some other \<Rightarrow> [nt, other] | None \<Rightarrow> [nt])
      in case filter (\<lambda>alt. alt \<in> set pitch_classes) alternatives of
           alt # _ \<Rightarrow> list_index pitch_classes alt
         | [] \<Rightarrow> 0)"

text \<open>Lines 207-209; \<open>index % 12\<close> is in \<open>0..11\<close>.\<close>

definition index_to_pitch_class :: "int \<Rightarrow> string" where
  "index_to_pitch_class index = pitch_classes ! nat (index mod 12)"

section \<open>Layout: \<open>create_hexagons\<close>\<close>

text \<open>
  Lines 266-306, without the drawing: one hexagon per lattice cell, in the order of
  the lattice dict, none active. \<open>hex_size\<close> is 0.5.
\<close>

definition create_hexagons :: "grid \<Rightarrow> (cell \<times> hex_data) list" where
  "create_hexagons g =
     (let hex_size = 1 / 2;
          h_spacing = hex_size * sqrt 3 * (93 / 100);
          v_spacing = hex_size * (17 / 10)
      in map (\<lambda>((row, col), pitch).
               let x = of_int col * h_spacing;
                   y = of_int row * v_spacing;
                   y = (if col mod 2 = 1 then y + v_spacing / 2 else y)
               in ((row, col),
                   \<lparr>note_name = index_to_pitch_class pitch, pitch_index = pitch,
                    position = (x, y), active = False\<rparr>)) g)"

text \<open>
  The state when the window becomes interactive: \<open>__init__\<close> (lines 19-66), then the
  pregeneration of the sounds, then \<open>_post_generation_setup\<close>. \<open>sounds\<close> is the list of
  notes whose sound was made; it is empty without audio.
\<close>

definition initial_state :: "bool \<Rightarrow> string list \<Rightarrow> int \<Rightarrow> int \<Rightarrow> tonnetz" where
  "initial_state audio sounds rows cols =
     \<lparr>audio_available = audio,
      hexagons = create_hexagons (create_tonnetz_grid rows cols []),
      active_notes = {},
      chord_highlights = {},
      playing_notes = [],
      note_sounds = (if audio then sounds else []),
      is_dragging = False,
      drag_toggle_state = None,
      already_toggled = {},
      toggle_calls = []\<rparr>"

section \<open>Continuous playback\<close>

text \<open>Lines 350-365.\<close>

definition start_continuous_note :: "tonnetz \<Rightarrow> mixer \<Rightarrow> string \<Rightarrow> tonnetz" where
  "start_continuous_note s m nt =
     (if \<not> audio_available s then s
      else if nt \<notin> set (note_sounds s) then s
      else if map_of (playing_notes s) nt = None then
        (case find_channel m of
           FindRaises \<Rightarrow> s
         | NoChannel \<Rightarrow> s
         | Free ch \<Rightarrow>
             if play_raises m then s
             else s\<lparr>playing_notes := AList.update nt ch (playing_notes s)\<rparr>)
      else s)"

text \<open>Lines 367-379.\<close>

definition stop_continuous_note :: "tonnetz \<Rightarrow> mixer \<Rightarrow> string \<Rightarrow> tonnetz" where
  "stop_continuous_note s m nt =
     (if \<not> audio_available s then s
      else
        (case map_of (playing_notes s) nt of
           None \<Rightarrow> s
         | Some ch \<Rightarrow>
             if stop_raises m ch then s
             else s\<lparr>playing_notes := AList.delete nt (playing_notes s)\<rparr>))"

section \<open>Toggling a cell\<close>

text \<open>
  Lines 381-401. \<open>self.hexagons[(row, col)]\<close> raises \<open>KeyError\<close> for a cell that has no
  hexagon. \<open>hex_data\<close> is the dict stored in \<open>self.hexagons\<close>, so writing its
  \<open>'active'\<close> entry updates the stored hexagon.
\<close>

definition toggle_note :: "tonnetz \<Rightarrow> mixer \<Rightarrow> cell \<Rightarrow> bool \<Rightarrow> error + tonnetz" where
  "toggle_note s m rc play_sound =
     (case map_of (hexagons s) rc of
        None \<Rightarrow> Inl KeyError
      | Some hx \<Rightarrow>
          let nt = note_name hx;
              s0 = s\<lparr>toggle_calls := toggle_calls s @ [rc]\<rparr>
          in if rc \<in> active_notes s0 then
               let s1 = s0\<lparr>active_notes := active_notes s0 - {rc},
                           hexagons := AList.update rc (hx\<lparr>active := False\<rparr>) (hexagons s0)\<rparr>
               in Inr (if play_sound then stop_continuous_note s1 m nt else s1)
             else
               let s1 = s0\<lparr>active_notes := insert rc (active_notes s0),
                           hexagons := AList.update rc (hx\<lparr>active := True\<rparr>) (hexagons s0)\<rparr>
               in Inr (if play_sound then start_continuous_note s1 m nt else s1))"

section \<open>Chord highlights\<close>

text \<open>
  Lines 487-499. The loop restores the drawing of the highlighted cells that are not
  active; it reads \<open>self.hexagons[(row, col)]\<close> for each of them, which raises
  \<open>KeyError\<close> when one has no hexagon. The triangle patches are drawing state.
\<close>

definition clear_chord_highlights :: "tonnetz \<Rightarrow> error + tonnetz" where
  "clear_chord_highlights s =
     (if chord_highlights s - active_notes s \<subseteq> fst ` set (hexagons s)
      then Inr (s\<lparr>chord_highlights := {}\<rparr>)
      else Inl KeyError)"

text \<open>
  Lines 407-412: the local \<open>chord_indices\<close> of \<open>highlight_chord\<close>; its parameter
  \<open>root\<close> is \<open>root_name\<close> here.
\<close>

definition chord_indices :: "string \<Rightarrow> string \<Rightarrow> int list" where
  "chord_indices root_name quality =
     (let root_index = pitch_class_to_index root_name
      in if quality = ''major''
         then [root_index, (root_index + 4) mod 12, (root_index + 7) mod 12]
         else [root_index, (root_index + 3) mod 12, (root_index + 7) mod 12])"

text \<open>
  Lines 403-450. Every hexagon whose pitch index is in \<open>chord_indices\<close> is added to
  \<open>chord_highlights\<close>. The search for the smallest triangle only draws, and the three
  preview tones are started on timer threads that touch no field of the state; both
  are left out.
\<close>

definition highlight_chord :: "tonnetz \<Rightarrow> string \<Rightarrow> string \<Rightarrow> error + tonnetz" where
  "highlight_chord s root_name quality =
     (case clear_chord_highlights s of
        Inl e \<Rightarrow> Inl e
      | Inr s1 \<Rightarrow>
          let chord = chord_indices root_name quality;
              hit = filter (\<lambda>(rc, hx). pitch_index hx \<in> set chord) (hexagons s1)
          in Inr (s1\<lparr>chord_highlights := chord_highlights s1 \<union> fst ` set hit\<rparr>))"

section \<open>\<open>clear_all\<close>\<close>

text \<open>Lines 513-519: the body of the loop over \<open>notes_to_stop\<close>.\<close>

definition stop_listed_note :: "mixer \<Rightarrow> string \<Rightarrow> tonnetz \<Rightarrow> tonnetz" where
  "stop_listed_note m nt s =
     (case map_of (playing_notes s) nt of
        None \<Rightarrow> s
      | Some ch \<Rightarrow>
          if stop_raises m ch then s
          else s\<lparr>playing_notes := AList.delete nt (playing_notes s)\<rparr>)"

text \<open>
  Lines 501-530. After the chord highlights, the function returns when audio is
  unavailable (lines 505-506), before the active notes are touched. Otherwise it stops
  the listed notes, sets \<open>'active'\<close> to false in the hexagon of every active cell
  (\<open>KeyError\<close> when one has no hexagon) and empties \<open>active_notes\<close>.
\<close>

definition clear_all :: "tonnetz \<Rightarrow> mixer \<Rightarrow> error + tonnetz" where
  "clear_all s m =
     (case clear_chord_highlights s of
        Inl e \<Rightarrow> Inl e
      | Inr s1 \<Rightarrow>
          if \<not> audio_available s1 then Inr s1
          else
            let notes_to_stop = map fst (playing_notes s1);
                s2 = fold (stop_listed_note m) notes_to_stop s1
            in if active_notes s2 \<subseteq> fst ` set (hexagons s2)
               then Inr (s2\<lparr>hexagons :=
                               map (\<lambda>(rc, hx). if rc \<in> active_notes s2
                                                then (rc, hx\<lparr>active := False\<rparr>)
                                                else (rc, hx)) (hexagons s2),
                             active_notes := {}\<rparr>)
               else Inl KeyError)"

section \<open>Mouse and key handlers\<close>

text \<open>
  A mouse event: \<open>inaxes\<close> says whether \<open>event.inaxes\<close> is the axes of the grid.
\<close>

record mouse_event =
  inaxes :: bool
  button :: int
  xdata :: real
  ydata :: real

text \<open>Lines 546-551: the first hexagon, in dict order, that contains the point.\<close>

definition find_hex_at_point :: "tonnetz \<Rightarrow> real \<Rightarrow> real \<Rightarrow> cell option" where
  "find_hex_at_point s x y =
     map_option fst (find (\<lambda>(rc, hx). point_in_hex (x, y) (position hx) (1 / 2)) (hexagons s))"

text \<open>Lines 553-566. A cell is a non-empty tuple, so \<open>if hex_pos:\<close> tests for \<open>None\<close>.\<close>

definition on_press :: "tonnetz \<Rightarrow> mixer \<Rightarrow> mouse_event \<Rightarrow> error + tonnetz" where
  "on_press s m event =
     (if \<not> inaxes event then Inr s
      else if button event \<noteq> 1 then Inr s
      else
        (case find_hex_at_point s (xdata event) (ydata event) of
           None \<Rightarrow> Inr s
         | Some hex_pos \<Rightarrow>
             let s1 = s\<lparr>is_dragging := True,
                         already_toggled := {hex_pos},
                         drag_toggle_state := Some (hex_pos \<notin> active_notes s)\<rparr>
             in toggle_note s1 m hex_pos True))"

text \<open>
  Lines 568-579. \<open>is_active != self.drag_toggle_state\<close> compares a bool with a bool
  or with \<open>None\<close>.
\<close>

definition on_motion :: "tonnetz \<Rightarrow> mixer \<Rightarrow> mouse_event \<Rightarrow> error + tonnetz" where
  "on_motion s m event =
     (if \<not> is_dragging s then Inr s
      else if \<not> inaxes event then Inr s
      else
        (case find_hex_at_point s (xdata event) (ydata event) of
           None \<Rightarrow> Inr s
         | Some hex_pos \<Rightarrow>
             if hex_pos \<in> already_toggled s then Inr s
             else
               let s1 = s\<lparr>already_toggled := insert hex_pos (already_toggled s)\<rparr>;
                   is_active = hex_pos \<in> active_notes s1
               in if Some is_active \<noteq> drag_toggle_state s1
                  then toggle_note s1 m hex_pos True
                  else Inr s1))"

text \<open>Lines 581-584.\<close>

definition on_release :: "tonnetz \<Rightarrow> tonnetz" where
  "on_release s = s\<lparr>is_dragging := False, already_toggled := {}\<rparr>"

text \<open>
  \<open>str.upper\<close>, \<open>str.isupper\<close> and the substring test \<open>x in y\<close>, on ASCII strings (key
  names are ASCII).
\<close>

definition py_upper_char :: "char \<Rightarrow> char" where
  "py_upper_char c =
     (case map_of (zip ''abcdefghijklmnopqrstuvwxyz'' ''ABCDEFGHIJKLMNOPQRSTUVWXYZ'') c of
        Some u \<Rightarrow> u
      | None \<Rightarrow> c)"

definition py_upper :: "string \<Rightarrow> string" where
  "py_upper k = map py_upper_char k"

definition py_isupper :: "string \<Rightarrow> bool" where
  "py_isupper k =
     (list_ex (\<lambda>c. c \<in> set ''ABCDEFGHIJKLMNOPQRSTUVWXYZ'') k \<and>
      \<not> list_ex (\<lambda>c. c \<in> set ''abcdefghijklmnopqrstuvwxyz'') k)"

fun py_in_str :: "string \<Rightarrow> string \<Rightarrow> bool" where
  "py_in_str xs [] = (xs = [])"
| "py_in_str xs (y # ys) = (take (length xs) (y # ys) = xs \<or> py_in_str xs ys)"

text \<open>Lines 586-596.\<close>

definition on_key :: "tonnetz \<Rightarrow> mixer \<Rightarrow> string \<Rightarrow> error + tonnetz" where
  "on_key s m key =
     (if key = '' '' then clear_all s m
      else if py_in_str (py_upper key) ''CDEFGAB'' then
        (if py_isupper key then highlight_chord s key ''major''
         else highlight_chord s (py_upper key) ''minor'')
      else Inr s)"

section \<open>Runs of the program\<close>

text \<open>
  The events that \<open>show\<close> connects to the four handlers (lines 601-604), each with the
  answers of the mixer during its handling.
\<close>

datatype event = Press mouse_event | Motion mouse_event | Release | KeyPress string

definition handle :: "tonnetz \<Rightarrow> mixer \<Rightarrow> event \<Rightarrow> error + tonnetz" where
  "handle s m e =
     (case e of
        Press ev \<Rightarrow> on_press s m ev
      | Motion ev \<Rightarrow> on_motion s m ev
      | Release \<Rightarrow> Inr (on_release s)
      | KeyPress k \<Rightarrow> on_key s m k)"

text \<open>The states the program can be in: from the initial state, by handled events.\<close>

inductive reachable :: "tonnetz \<Rightarrow> bool" where
  start: "reachable (initial_state audio sounds rows cols)"
| step: "reachable s \<Longrightarrow> handle s m e = Inr s' \<Longrightarrow> reachable s'"

text \<open>A run of motion events, as between a press and the next release.\<close>

fun motions :: "tonnetz \<Rightarrow> (mixer \<times> mouse_event) list \<Rightarrow> error + tonnetz" where
  "motions s [] = Inr s"
| "motions s ((m, ev) # rest) =
     (case on_motion s m ev of Inl e \<Rightarrow> Inl e | Inr s' \<Rightarrow> motions s' rest)"

section \<open>Invariants of the reachable states\<close>

text \<open>
  The playback registry holds at most one channel per note name, and it is empty
  whenever the audio subsystem is unavailable.
\<close>

definition registry_ok :: "tonnetz \<Rightarrow> bool" where
  "registry_ok s =
     (distinct (map fst (playing_notes s)) \<and> (audio_available s \<or> playing_notes s = []))"

text \<open>
  Every active cell and every highlighted cell has a hexagon, and the \<open>'active'\<close>
  entry of a hexagon says whether its cell is in \<open>active_notes\<close>.
\<close>

definition cells_ok :: "tonnetz \<Rightarrow> bool" where
  "cells_ok s =
     (active_notes s \<subseteq> fst ` set (hexagons s) \<and>
      chord_highlights s \<subseteq> fst ` set (hexagons s) \<and>
      distinct (map fst (hexagons s)) \<and>
      list_all (\<lambda>(rc, hx). active hx = (rc \<in> active_notes s)) (hexagons s))"

section \<open>Mixers used in the examples\<close>

text \<open>
  A mixer that hands out channel \<open>ch\<close> and never raises, and one that finds no free
  channel and whose \<open>stop\<close> raises on every channel.
\<close>

definition working_mixer :: "channel \<Rightarrow> mixer" where
  "working_mixer ch = \<lparr>find_channel = Free ch, play_raises = False, stop_raises = (\<lambda>c. False)\<rparr>"

definition failing_mixer :: mixer where
  "failing_mixer = \<lparr>find_channel = NoChannel, play_raises = True, stop_raises = (\<lambda>c. True)\<rparr>"

section \<open>Properties of the lattice\<close>









lemma fold_grid_cell_empty:
  "fold (\<lambda>row. fold (\<lambda>col. grid_cell sr sc row col) []) rs g = g"
  by (induction rs) simp_all




text \<open>
  C3 (as the code has it). Neither the constructor nor \<open>create_tonnetz_grid\<close> checks
  the dimensions: with \<open>rows \<le> 0\<close> or \<open>cols \<le> 0\<close> no error is raised, the loops run
  over no cell, and the result is the one-cell lattice that maps
  \<open>(rows div 2, cols div 2)\<close> to pitch class 0.
\<close>

theorem create_tonnetz_grid_nonpositive:
  assumes "rows \<le> 0 \<or> cols \<le> 0"
  shows "create_tonnetz_grid rows cols [] = [((rows div 2, cols div 2), 0)]"
proof (cases "rows \<le> 0")
  case True
  then show ?thesis by (simp add: create_tonnetz_grid_def)
next
  case False
  with assms have "[0..cols - 1] = []" by simp
  then show ?thesis
    unfolding create_tonnetz_grid_def Let_def by (simp only: fold_grid_cell_empty) simp
qed

theorem create_tonnetz_grid_nonpositive_witness:
  "((-3::int) \<le> 0 \<or> (4::int) \<le> 0) \<and> create_tonnetz_grid (-3) 4 [] = [((-2, 2), 0)]"
  using create_tonnetz_grid_nonpositive [of "-3" 4] by simp

text \<open>
  C3 (as the specification states it) fails: a lattice with zero rows and zero columns
  is built without an error and holds one cell.
\<close>

theorem create_tonnetz_grid_zero_counterexample:
  "create_tonnetz_grid 0 0 [] = [((0, 0), 0)]"
  by (simp add: create_tonnetz_grid_def)

section \<open>Properties of the geometry and of the synthesizer\<close>









section \<open>Properties of the key handler\<close>










section \<open>Properties of the playback registry\<close>

lemma start_registered:
  assumes "map_of (playing_notes s) nt \<noteq> None"
  shows "start_continuous_note s m nt = s"
  using assms by (auto simp: start_continuous_note_def)

lemma update_absent:
  assumes "map_of al k = None"
  shows "AList.update k v al = al @ [(k, v)]"
  using assms by (induction al) (auto split: if_splits)

lemma start_unregistered:
  assumes "map_of (playing_notes s) nt = None"
  shows "start_continuous_note s m nt = s \<or>
         (\<exists>ch. start_continuous_note s m nt = s\<lparr>playing_notes := playing_notes s @ [(nt, ch)]\<rparr>)"
  using assms
  by (cases "find_channel m") (auto simp: start_continuous_note_def update_absent)

lemma start_registry_ok:
  assumes "registry_ok s"
  shows "registry_ok (start_continuous_note s m nt)"
proof (cases "map_of (playing_notes s) nt")
  case None
  then have "nt \<notin> fst ` set (playing_notes s)"
    by (simp add: map_of_eq_None_iff)
  with assms start_unregistered [OF None, of m] show ?thesis
    by (auto simp: registry_ok_def start_continuous_note_def)
next
  case (Some ch)
  then show ?thesis
    using assms by (simp add: start_registered)
qed

lemma stop_unregistered:
  assumes "map_of (playing_notes s) nt = None"
  shows "stop_continuous_note s m nt = s"
  using assms by (simp add: stop_continuous_note_def)

lemma stop_raising:
  assumes "map_of (playing_notes s) nt = Some ch" and "stop_raises m ch"
  shows "stop_continuous_note s m nt = s"
  using assms by (simp add: stop_continuous_note_def)

lemma stop_registered:
  assumes "audio_available s" and "map_of (playing_notes s) nt = Some ch"
    and "\<not> stop_raises m ch"
  shows "stop_continuous_note s m nt = s\<lparr>playing_notes := AList.delete nt (playing_notes s)\<rparr>"
  using assms by (simp add: stop_continuous_note_def)

lemma delete_registry_ok:
  assumes "registry_ok s"
  shows "registry_ok (s\<lparr>playing_notes := AList.delete nt (playing_notes s)\<rparr>)"
  using assms by (auto simp: registry_ok_def distinct_delete)

lemma stop_registry_ok:
  assumes "registry_ok s"
  shows "registry_ok (stop_continuous_note s m nt)"
proof (cases "map_of (playing_notes s) nt")
  case None
  then show ?thesis using assms by (simp add: stop_unregistered)
next
  case (Some ch)
  show ?thesis
  proof (cases "audio_available s \<and> \<not> stop_raises m ch")
    case True
    then show ?thesis
      using Some delete_registry_ok [OF assms] by (simp add: stop_registered)
  next
    case False
    then have "stop_continuous_note s m nt = s"
      using Some by (auto simp: stop_continuous_note_def)
    then show ?thesis using assms by simp
  qed
qed

lemma stop_listed_note_registry_ok:
  assumes "registry_ok s"
  shows "registry_ok (stop_listed_note m nt s)"
  using assms delete_registry_ok [OF assms]
  by (cases "map_of (playing_notes s) nt") (simp_all add: stop_listed_note_def)

lemma fold_stop_listed_registry_ok:
  assumes "registry_ok s"
  shows "registry_ok (fold (stop_listed_note m) nts s)"
  using assms by (induction nts arbitrary: s) (simp_all add: stop_listed_note_registry_ok)

lemma stop_listed_note_fields:
  "stop_listed_note m nt s = s\<lparr>playing_notes := playing_notes (stop_listed_note m nt s)\<rparr>"
  by (cases "map_of (playing_notes s) nt") (simp_all add: stop_listed_note_def)

lemma fold_stop_listed_fields:
  "fold (stop_listed_note m) nts s = s\<lparr>playing_notes := playing_notes (fold (stop_listed_note m) nts s)\<rparr>"
proof (induction nts arbitrary: s)
  case Nil
  show ?case by simp
next
  case (Cons nt nts)
  define t where "t = stop_listed_note m nt s"
  have a: "fold (stop_listed_note m) (nt # nts) s = fold (stop_listed_note m) nts t"
    by (simp add: t_def)
  have b: "t = s\<lparr>playing_notes := playing_notes t\<rparr>"
    unfolding t_def by (rule stop_listed_note_fields)
  have c: "fold (stop_listed_note m) nts t
           = t\<lparr>playing_notes := playing_notes (fold (stop_listed_note m) nts t)\<rparr>"
    by (rule Cons.IH)
  have "fold (stop_listed_note m) nts t
        = s\<lparr>playing_notes := playing_notes (fold (stop_listed_note m) nts t)\<rparr>"
    by (subst c, subst b) simp
  with a show ?case by simp
qed

lemma delete_filter:
  "AList.delete k al = filter (\<lambda>p. fst p \<noteq> k) al"
  by (induction al) auto

lemma clear_chord_highlights_fields:
  assumes "clear_chord_highlights s = Inr s1"
  shows "s1 = s\<lparr>chord_highlights := {}\<rparr>"
  using assms by (auto simp: clear_chord_highlights_def split: if_splits)

lemma clear_all_result:
  assumes "clear_all s m = Inr s'"
  shows "if audio_available s
         then active_notes s \<subseteq> fst ` set (hexagons s) \<and>
              s' = s\<lparr>chord_highlights := {},
                     playing_notes :=
                       playing_notes (fold (stop_listed_note m) (map fst (playing_notes s))
                                        (s\<lparr>chord_highlights := {}\<rparr>)),
                     hexagons :=
                       map (\<lambda>(rc, hx). if rc \<in> active_notes s
                                        then (rc, hx\<lparr>active := False\<rparr>)
                                        else (rc, hx)) (hexagons s),
                     active_notes := {}\<rparr>
         else s' = s\<lparr>chord_highlights := {}\<rparr>"
proof -
  obtain s1 where c: "clear_chord_highlights s = Inr s1"
    using assms by (cases "clear_chord_highlights s") (simp_all add: clear_all_def)
  have s1: "s1 = s\<lparr>chord_highlights := {}\<rparr>"
    using c by (rule clear_chord_highlights_fields)
  show ?thesis
  proof (cases "audio_available s")
    case False
    then have "clear_all s m = Inr s1"
      using c s1 by (simp add: clear_all_def)
    with assms have "s' = s1" by simp
    with s1 False show ?thesis by simp
  next
    case True
    define s2 where "s2 = fold (stop_listed_note m) (map fst (playing_notes s1)) s1"
    have s2: "s2 = s1\<lparr>playing_notes := playing_notes s2\<rparr>"
      unfolding s2_def by (rule fold_stop_listed_fields)
    have an: "active_notes s2 = active_notes s"
      by (subst s2) (simp add: s1)
    have hx: "hexagons s2 = hexagons s"
      by (subst s2) (simp add: s1)
    have av: "audio_available s1" using True s1 by simp
    have "clear_all s m =
            (if active_notes s2 \<subseteq> fst ` set (hexagons s2)
             then Inr (s2\<lparr>hexagons :=
                             map (\<lambda>(rc, hx). if rc \<in> active_notes s2
                                              then (rc, hx\<lparr>active := False\<rparr>)
                                              else (rc, hx)) (hexagons s2),
                           active_notes := {}\<rparr>)
             else Inl KeyError)"
      unfolding clear_all_def s2_def using c av by (simp add: Let_def)
    with assms have sub: "active_notes s \<subseteq> fst ` set (hexagons s)"
      and e: "s' = s2\<lparr>hexagons :=
                             map (\<lambda>(rc, hx). if rc \<in> active_notes s
                                              then (rc, hx\<lparr>active := False\<rparr>)
                                              else (rc, hx)) (hexagons s),
                           active_notes := {}\<rparr>"
      unfolding an hx by (simp_all split: if_splits)
    have "s' = s1\<lparr>playing_notes := playing_notes s2,
                   hexagons :=
                             map (\<lambda>(rc, hx). if rc \<in> active_notes s
                                              then (rc, hx\<lparr>active := False\<rparr>)
                                              else (rc, hx)) (hexagons s),
                           active_notes := {}\<rparr>"
      by (subst e, subst s2) simp
    then show ?thesis
      using True sub by (simp add: s1 s2_def)
  qed
qed

lemma clear_all_registry_ok:
  assumes "registry_ok s" and "clear_all s m = Inr s'"
  shows "registry_ok s'"
proof -
  have r: "registry_ok (s\<lparr>chord_highlights := {}\<rparr>)"
    using assms(1) by (simp add: registry_ok_def)
  have "registry_ok (fold (stop_listed_note m) (map fst (playing_notes s)) (s\<lparr>chord_highlights := {}\<rparr>))"
    using r by (rule fold_stop_listed_registry_ok)
  then show ?thesis
    using assms(1) clear_all_result [OF assms(2)]
    by (cases "audio_available s") (simp_all add: registry_ok_def)
qed

lemma stop_listed_note_filter:
  assumes "distinct (map fst (playing_notes s))"
  shows "playing_notes (stop_listed_note m nt s)
         = filter (\<lambda>p. fst p \<noteq> nt \<or> stop_raises m (snd p)) (playing_notes s)"
proof (cases "map_of (playing_notes s) nt")
  case None
  then have "\<forall>p \<in> set (playing_notes s). fst p \<noteq> nt"
    by (auto simp: map_of_eq_None_iff)
  then have "filter (\<lambda>p. fst p \<noteq> nt \<or> stop_raises m (snd p)) (playing_notes s) = playing_notes s"
    by (simp add: filter_id_conv)
  with None show ?thesis by (simp add: stop_listed_note_def)
next
  case (Some ch)
  have only: "snd p = ch" if "p \<in> set (playing_notes s)" and "fst p = nt" for p
  proof -
    have "map_of (playing_notes s) (fst p) = Some (snd p)"
      using assms that(1) by (simp add: map_of_is_SomeI)
    with Some that(2) show ?thesis by simp
  qed
  show ?thesis
  proof (cases "stop_raises m ch")
    case True
    have "\<forall>p \<in> set (playing_notes s). fst p \<noteq> nt \<or> stop_raises m (snd p)"
      using only True by auto
    then have "filter (\<lambda>p. fst p \<noteq> nt \<or> stop_raises m (snd p)) (playing_notes s) = playing_notes s"
      by (simp add: filter_id_conv)
    with Some True show ?thesis by (simp add: stop_listed_note_def)
  next
    case False
    have "filter (\<lambda>p. fst p \<noteq> nt \<or> stop_raises m (snd p)) (playing_notes s)
          = filter (\<lambda>p. fst p \<noteq> nt) (playing_notes s)"
      using only False by (intro filter_cong) auto
    with Some False show ?thesis by (simp add: stop_listed_note_def delete_filter)
  qed
qed

lemma fold_stop_listed_filter:
  assumes "distinct (map fst (playing_notes s))"
  shows "playing_notes (fold (stop_listed_note m) nts s)
         = filter (\<lambda>p. fst p \<notin> set nts \<or> stop_raises m (snd p)) (playing_notes s)"
  using assms
proof (induction nts arbitrary: s)
  case Nil
  show ?case by simp
next
  case (Cons nt nts)
  define t where "t = stop_listed_note m nt s"
  have pt: "playing_notes t = filter (\<lambda>p. fst p \<noteq> nt \<or> stop_raises m (snd p)) (playing_notes s)"
    unfolding t_def using Cons.prems by (rule stop_listed_note_filter)
  have "distinct (map fst (playing_notes t))"
    unfolding pt using Cons.prems by (rule distinct_map_filter)
  then have "playing_notes (fold (stop_listed_note m) nts t)
             = filter (\<lambda>p. fst p \<notin> set nts \<or> stop_raises m (snd p)) (playing_notes t)"
    by (rule Cons.IH)
  also have "\<dots> = filter (\<lambda>p. fst p \<notin> set (nt # nts) \<or> stop_raises m (snd p)) (playing_notes s)"
    unfolding pt filter_filter by (intro filter_cong) auto
  finally show ?case by (simp add: t_def)
qed

lemma clear_all_registry:
  assumes "registry_ok s" and "clear_all s m = Inr s'"
  shows "playing_notes s' = filter (\<lambda>p. stop_raises m (snd p)) (playing_notes s)"
proof (cases "audio_available s")
  case True
  have d: "distinct (map fst (playing_notes (s\<lparr>chord_highlights := {}\<rparr>)))"
    using assms(1) by (simp add: registry_ok_def)
  have "playing_notes (fold (stop_listed_note m) (map fst (playing_notes s)) (s\<lparr>chord_highlights := {}\<rparr>))
        = filter (\<lambda>p. fst p \<notin> set (map fst (playing_notes s)) \<or> stop_raises m (snd p)) (playing_notes s)"
    using fold_stop_listed_filter [OF d, of m "map fst (playing_notes s)"] by simp
  also have "\<dots> = filter (\<lambda>p. stop_raises m (snd p)) (playing_notes s)"
    by (intro filter_cong) auto
  finally show ?thesis
    using True clear_all_result [OF assms(2)] by simp
next
  case False
  then show ?thesis
    using assms(1) clear_all_result [OF assms(2)] by (simp add: registry_ok_def)
qed

lemma clear_all_returns:
  assumes "cells_ok s"
  shows "\<exists>s'. clear_all s m = Inr s'"
proof -
  define s1 where "s1 = s\<lparr>chord_highlights := {}\<rparr>"
  define s2 where "s2 = fold (stop_listed_note m) (map fst (playing_notes s1)) s1"
  have c: "clear_chord_highlights s = Inr s1"
    using assms by (auto simp: clear_chord_highlights_def cells_ok_def s1_def)
  have s2: "s2 = s1\<lparr>playing_notes := playing_notes s2\<rparr>"
    unfolding s2_def by (rule fold_stop_listed_fields)
  have an: "active_notes s2 = active_notes s"
    by (subst s2) (simp add: s1_def)
  have hx: "hexagons s2 = hexagons s"
    by (subst s2) (simp add: s1_def)
  have sub: "active_notes s2 \<subseteq> fst ` set (hexagons s2)"
    unfolding an hx using assms by (simp add: cells_ok_def)
  show ?thesis
  proof (cases "audio_available s1")
    case True
    then show ?thesis
      unfolding clear_all_def
      using c sub by (simp add: Let_def s2_def [symmetric])
  next
    case False
    then show ?thesis
      unfolding clear_all_def using c by simp
  qed
qed


text \<open>
  Claim C7, as the spec states it, promises that stopping a note removes its
  registration. \<open>stop_continuous_note\<close> deletes the entry only after \<open>channel.stop()\<close>
  has returned; when that call raises, the handler of lines 378-379 keeps the entry.
  Here note C is started on channel 0 and then stopped while the channel's \<open>stop\<close>
  raises: C is still registered.
\<close>

theorem stop_continuous_note_raising_counterexample:
  "map_of (playing_notes
             (stop_continuous_note
                (start_continuous_note (initial_state True [''C''] 1 1) (working_mixer 0) ''C'')
                failing_mixer ''C'')) ''C'' = Some 0"
  by (simp add: initial_state_def start_continuous_note_def stop_continuous_note_def
        working_mixer_def failing_mixer_def)

text \<open>
  Claim C7, amended. In a state whose registry has at most one channel per note name
  (and is empty without audio), as in every state the program reaches:
  \<^item> starting a note, stopping a note and \<open>clear_all\<close> keep that property, and \<open>clear_all\<close>
    returns whenever every active or highlighted cell has a hexagon;
  \<^item> starting a registered note changes nothing; starting an unregistered note changes
    nothing or appends exactly one registration for that note;
  \<^item> stopping an unregistered note changes nothing; stopping a registered note removes
    its registration when the channel's \<open>stop\<close> returns, and changes nothing when it
    raises;
  \<^item> \<open>clear_all\<close> removes exactly the registrations whose channel's \<open>stop\<close> returns, so
    every registration when none raises.
\<close>

theorem playback_registry_operations:
  assumes "registry_ok s"
  shows "registry_ok (start_continuous_note s m nt) \<and>
         registry_ok (stop_continuous_note s m nt) \<and>
         (\<forall>s'. clear_all s m = Inr s' \<longrightarrow> registry_ok s') \<and>
         (cells_ok s \<longrightarrow> (\<exists>s'. clear_all s m = Inr s')) \<and>
         (map_of (playing_notes s) nt \<noteq> None \<longrightarrow> start_continuous_note s m nt = s) \<and>
         (map_of (playing_notes s) nt = None \<longrightarrow>
            start_continuous_note s m nt = s \<or>
            (\<exists>ch. start_continuous_note s m nt
                    = s\<lparr>playing_notes := playing_notes s @ [(nt, ch)]\<rparr>)) \<and>
         (map_of (playing_notes s) nt = None \<longrightarrow> stop_continuous_note s m nt = s) \<and>
         (\<forall>ch. map_of (playing_notes s) nt = Some ch \<longrightarrow>
            (if stop_raises m ch
             then stop_continuous_note s m nt = s
             else stop_continuous_note s m nt
                    = s\<lparr>playing_notes := AList.delete nt (playing_notes s)\<rparr> \<and>
                  map_of (playing_notes (stop_continuous_note s m nt)) nt = None)) \<and>
         (\<forall>s'. clear_all s m = Inr s' \<longrightarrow>
            playing_notes s' = filter (\<lambda>p. stop_raises m (snd p)) (playing_notes s) \<and>
            ((\<forall>p \<in> set (playing_notes s). \<not> stop_raises m (snd p)) \<longrightarrow> playing_notes s' = []))"
proof -
  have a: "registry_ok (start_continuous_note s m nt)"
    using assms by (rule start_registry_ok)
  have b: "registry_ok (stop_continuous_note s m nt)"
    using assms by (rule stop_registry_ok)
  have c: "\<forall>s'. clear_all s m = Inr s' \<longrightarrow> registry_ok s'"
    using assms by (blast intro: clear_all_registry_ok)
  have d: "cells_ok s \<longrightarrow> (\<exists>s'. clear_all s m = Inr s')"
    by (blast intro: clear_all_returns)
  have e: "map_of (playing_notes s) nt \<noteq> None \<longrightarrow> start_continuous_note s m nt = s"
    by (blast intro: start_registered)
  have f: "map_of (playing_notes s) nt = None \<longrightarrow>
            start_continuous_note s m nt = s \<or>
            (\<exists>ch. start_continuous_note s m nt
                    = s\<lparr>playing_notes := playing_notes s @ [(nt, ch)]\<rparr>)"
    using start_unregistered [of s nt m] by blast
  have g: "map_of (playing_notes s) nt = None \<longrightarrow> stop_continuous_note s m nt = s"
    by (blast intro: stop_unregistered)
  have h: "\<forall>ch. map_of (playing_notes s) nt = Some ch \<longrightarrow>
            (if stop_raises m ch
             then stop_continuous_note s m nt = s
             else stop_continuous_note s m nt
                    = s\<lparr>playing_notes := AList.delete nt (playing_notes s)\<rparr> \<and>
                  map_of (playing_notes (stop_continuous_note s m nt)) nt = None)"
  proof (intro allI impI)
    fix ch
    assume reg: "map_of (playing_notes s) nt = Some ch"
    then have "playing_notes s \<noteq> []" by auto
    with assms have av: "audio_available s" by (simp add: registry_ok_def)
    show "if stop_raises m ch
          then stop_continuous_note s m nt = s
          else stop_continuous_note s m nt
                 = s\<lparr>playing_notes := AList.delete nt (playing_notes s)\<rparr> \<and>
               map_of (playing_notes (stop_continuous_note s m nt)) nt = None"
    proof (cases "stop_raises m ch")
      case True
      with reg show ?thesis by (simp add: stop_raising)
    next
      case False
      with av reg show ?thesis
        by (simp add: stop_registered delete_conv')
    qed
  qed
  have i: "\<forall>s'. clear_all s m = Inr s' \<longrightarrow>
            playing_notes s' = filter (\<lambda>p. stop_raises m (snd p)) (playing_notes s) \<and>
            ((\<forall>p \<in> set (playing_notes s). \<not> stop_raises m (snd p)) \<longrightarrow> playing_notes s' = [])"
  proof (intro allI impI)
    fix s'
    assume "clear_all s m = Inr s'"
    with assms have "playing_notes s' = filter (\<lambda>p. stop_raises m (snd p)) (playing_notes s)"
      by (rule clear_all_registry)
    then show "playing_notes s' = filter (\<lambda>p. stop_raises m (snd p)) (playing_notes s) \<and>
            ((\<forall>p \<in> set (playing_notes s). \<not> stop_raises m (snd p)) \<longrightarrow> playing_notes s' = [])"
      by (simp add: filter_empty_conv)
  qed
  from a b c d e f g h i show ?thesis by blast
qed

theorem playback_registry_operations_witness:
  "registry_ok (start_continuous_note (initial_state True [''C''] 1 1) (working_mixer 0) ''C'') \<and>
   map_of (playing_notes
             (start_continuous_note (initial_state True [''C''] 1 1) (working_mixer 0) ''C''))
      ''C'' = Some 0 \<and>
   \<not> stop_raises (working_mixer 1) 0 \<and>
   start_continuous_note
       (start_continuous_note (initial_state True [''C''] 1 1) (working_mixer 0) ''C'')
       (working_mixer 1) ''C''
     = start_continuous_note (initial_state True [''C''] 1 1) (working_mixer 0) ''C'' \<and>
   map_of (playing_notes
             (stop_continuous_note
                (start_continuous_note (initial_state True [''C''] 1 1) (working_mixer 0) ''C'')
                (working_mixer 1) ''C'')) ''C'' = None"
proof -
  define s where
    "s = start_continuous_note (initial_state True [''C''] 1 1) (working_mixer 0) ''C''"
  have p: "playing_notes s = [(''C'', 0)]" and av: "audio_available s"
    by (simp_all add: s_def initial_state_def start_continuous_note_def working_mixer_def)
  have ok: "registry_ok s"
    by (simp add: registry_ok_def p av)
  have q: "\<not> stop_raises (working_mixer 1) 0"
    by (simp add: working_mixer_def)
  show ?thesis
    using playback_registry_operations [OF ok, of "working_mixer 1" "''C''"] ok q
    unfolding s_def [symmetric] by (simp add: p)
qed

end
